theory Spec2Isabelle
  imports Complex_Main "HOL-Library.AList"
begin

section \<open>Python values used by bot.py\<close>

text \<open>
  Python integers are unbounded: they are \<open>int\<close>. A \<open>dict\<close> keeps its keys in
  insertion order and holds one value per key: it is an association list, read with
  \<open>map_of\<close> and written with \<open>AList.update\<close> (replace the value in place when
  the key is there, append the pair at the end otherwise), which is what \<open>d[k] = v\<close>
  does.
\<close>

type_synonym ('k, 'v) dict = "('k \<times> 'v) list"

definition dict_contains :: "('k, 'v) dict \<Rightarrow> 'k \<Rightarrow> bool" where
  \<comment> \<open>\<open>k in d\<close>\<close>
  "dict_contains d k = (map_of d k \<noteq> None)"

definition dict_values :: "('k, 'v) dict \<Rightarrow> 'v list" where
  \<comment> \<open>\<open>d.values()\<close>\<close>
  "dict_values d = map snd d"

subsection \<open>Strings\<close>

text \<open>
  A string is a list of characters. \<open>str.lower\<close> and \<open>str.upper\<close> are modelled on
  the ASCII letters, which are the only letters of the extensions and format names the
  program compares with; every other character is left as it is.
\<close>

definition ascii_upper :: string where
  "ascii_upper = ''ABCDEFGHIJKLMNOPQRSTUVWXYZ''"

definition ascii_lower :: string where
  "ascii_lower = ''abcdefghijklmnopqrstuvwxyz''"

definition lower :: "string \<Rightarrow> string" where
  \<comment> \<open>\<open>s.lower()\<close>\<close>
  "lower s = map (\<lambda>c. case map_of (zip ascii_upper ascii_lower) c of Some d \<Rightarrow> d | None \<Rightarrow> c) s"

definition upper :: "string \<Rightarrow> string" where
  \<comment> \<open>\<open>s.upper()\<close>\<close>
  "upper s = map (\<lambda>c. case map_of (zip ascii_lower ascii_upper) c of Some d \<Rightarrow> d | None \<Rightarrow> c) s"

definition endswith :: "string \<Rightarrow> string \<Rightarrow> bool" where
  \<comment> \<open>\<open>s.endswith(suffix)\<close>\<close>
  "endswith s suffix =
     (length suffix \<le> length s \<and> drop (length s - length suffix) s = suffix)"

fun split_on :: "char \<Rightarrow> string \<Rightarrow> string list" where
  \<comment> \<open>\<open>s.split(sep)\<close> for a separator of one character: never an empty list\<close>
  "split_on sep [] = [[]]"
| "split_on sep (c # cs) =
     (if c = sep then [] # split_on sep cs
      else (case split_on sep cs of
              p # ps \<Rightarrow> (c # p) # ps
            | [] \<Rightarrow> [[c]]))"

fun rfind_from :: "char \<Rightarrow> string \<Rightarrow> int \<Rightarrow> int \<Rightarrow> int" where
  "rfind_from c [] i found = found"
| "rfind_from c (x # xs) i found = rfind_from c xs (i + 1) (if x = c then i else found)"

definition rfind :: "char \<Rightarrow> string \<Rightarrow> int" where
  \<comment> \<open>\<open>s.rfind(c)\<close>: the highest index of \<open>c\<close>, or -1\<close>
  "rfind c s = rfind_from c s 0 (-1)"

definition splitext :: "string \<Rightarrow> string \<times> string" where
  \<comment> \<open>\<open>os.path.splitext\<close> on a POSIX path: the extension starts at the last dot,
      provided that dot comes after the last slash and some character between the slash
      and the dot is not a dot (leading dots belong to the name)\<close>
  "splitext p =
     (let sepIndex = rfind (CHR ''/'') p;
          dotIndex = rfind (CHR ''.'') p
      in if dotIndex > sepIndex \<and>
            list_ex (\<lambda>c. c \<noteq> CHR ''.'')
              (take (nat (dotIndex - (sepIndex + 1))) (drop (nat (sepIndex + 1)) p))
         then (take (nat dotIndex) p, drop (nat dotIndex) p)
         else (p, []))"

datatype py_error = IndexError | KeyError | ZeroDivisionError | ExternalError

section \<open>Formats and pixel modes\<close>

definition SUPPORTED_FORMATS :: "(string, string) dict" where
  \<comment> \<open>lines 31-39\<close>
  "SUPPORTED_FORMATS =
     [(''JPEG'', ''.jpg''), (''PNG'', ''.png''), (''WEBP'', ''.webp''), (''GIF'', ''.gif''),
      (''TIFF'', ''.tiff''), (''BMP'', ''.bmp''), (''AVIF'', ''.avif'')]"

text \<open>
  A pixel mode is the string \<open>img.mode\<close> of an opened image. \<open>normalize_mode\<close> is the
  mode of \<open>img\<close> after lines 431-438: \<open>img.convert(m)\<close> gives an image of mode \<open>m\<close>.
\<close>

definition normalize_mode :: "string \<Rightarrow> string \<Rightarrow> string" where
  "normalize_mode target_format mode =
     (if target_format = ''JPEG'' \<and> mode \<in> set [''RGBA'', ''P''] then ''RGB''
      else if target_format = ''WEBP'' \<and> mode \<notin> set [''RGB'', ''RGBA''] then ''RGBA''
      else if target_format = ''AVIF'' \<and> mode \<notin> set [''RGB'', ''RGBA''] then ''RGBA''
      else mode)"

text \<open>
  The imaging library's table of modes says which modes carry an alpha channel
  (\<open>LA\<close>, \<open>PA\<close>, \<open>RGBA\<close> and the premultiplied \<open>La\<close>, \<open>RGBa\<close>) and which are
  indexed by a palette (\<open>P\<close>, \<open>PA\<close>). The program never asks these questions; the two
  predicates are here to state what a claim says about "a mode that has an alpha channel
  or a palette".
\<close>

definition has_alpha_channel :: "string \<Rightarrow> bool" where
  "has_alpha_channel mode = (mode \<in> set [''LA'', ''PA'', ''RGBA'', ''La'', ''RGBa''])"

definition has_palette :: "string \<Rightarrow> bool" where
  "has_palette mode = (mode \<in> set [''P'', ''PA''])"

section \<open>Statistics (bot.py, lines 45-108)\<close>

text \<open>The three counters kept for one day or one month.\<close>

record period_stats =
  images :: int
  size_original :: int
  size_converted :: int

text \<open>The dictionary \<open>self.stats\<close>, one field per key.\<close>

record stats_data =
  total_images :: int
  total_size_original :: int
  total_size_converted :: int
  conversions_by_format :: "(string, int) dict"
  daily_stats :: "(string, period_stats) dict"
  monthly_stats :: "(string, period_stats) dict"

definition zero_period :: period_stats where
  "zero_period = \<lparr>images = 0, size_original = 0, size_converted = 0\<rparr>"

definition initial_stats :: stats_data where
  \<comment> \<open>what \<open>load_stats\<close> returns when there is no statistics file (lines 56-63)\<close>
  "initial_stats =
     \<lparr>total_images = 0, total_size_original = 0, total_size_converted = 0,
      conversions_by_format = [], daily_stats = [], monthly_stats = []\<rparr>"

definition bump_format :: "string \<Rightarrow> (string, int) dict \<Rightarrow> (string, int) dict" where
  \<comment> \<open>lines 82-84: \<open>if f not in d: d[f] = 0\<close>, then \<open>d[f] += 1\<close>. After the first
      statement the key is there, so the read of \<open>d[f] += 1\<close> cannot raise KeyError.\<close>
  "bump_format f d =
     (let d1 = (if \<not> dict_contains d f then AList.update f 0 d else d)
      in case map_of d1 f of
           Some n \<Rightarrow> AList.update f (n + 1) d1
         | None \<Rightarrow> d1)"

definition bump_period ::
  "string \<Rightarrow> int \<Rightarrow> int \<Rightarrow> (string, period_stats) dict \<Rightarrow> (string, period_stats) dict" where
  \<comment> \<open>lines 87-95 (and 98-106): create the zeroed entry when the key is missing, then add
      to its three counters\<close>
  "bump_period k original_size converted_size d =
     (let d1 = (if \<not> dict_contains d k then AList.update k zero_period d else d)
      in case map_of d1 k of
           Some p \<Rightarrow>
             AList.update k
               (p\<lparr>images := images p + 1,
                  size_original := size_original p + original_size,
                  size_converted := size_converted p + converted_size\<rparr>) d1
         | None \<Rightarrow> d1)"

definition update_conversion_stats ::
  "string \<Rightarrow> string \<Rightarrow> int \<Rightarrow> int \<Rightarrow> string \<Rightarrow> stats_data \<Rightarrow> stats_data" where
  \<comment> \<open>lines 72-108. \<open>today\<close> and \<open>month\<close> are the two strings computed from the clock
      at lines 73-74. \<open>save_stats\<close> (line 108) writes the dictionary to the file and
      swallows every failure; it does not change the dictionary.\<close>
  "update_conversion_stats today month original_size converted_size target_format s =
     s\<lparr>total_images := total_images s + 1,
       total_size_original := total_size_original s + original_size,
       total_size_converted := total_size_converted s + converted_size,
       conversions_by_format := bump_format target_format (conversions_by_format s),
       daily_stats := bump_period today original_size converted_size (daily_stats s),
       monthly_stats := bump_period month original_size converted_size (monthly_stats s)\<rparr>"

definition format_count :: "stats_data \<Rightarrow> string \<Rightarrow> int" where
  \<comment> \<open>the counter of one format, 0 when the format has no entry yet\<close>
  "format_count s f = (case map_of (conversions_by_format s) f of Some n \<Rightarrow> n | None \<Rightarrow> 0)"

definition day_images :: "stats_data \<Rightarrow> string \<Rightarrow> int" where
  \<comment> \<open>the image counter of one day, 0 when the day has no entry yet\<close>
  "day_images s d = (case map_of (daily_stats s) d of Some p \<Rightarrow> images p | None \<Rightarrow> 0)"

definition stats_invariant :: "stats_data \<Rightarrow> bool" where
  "stats_invariant s =
     (total_images s = sum_list (dict_values (conversions_by_format s)) \<and>
      total_images s = sum_list (map images (dict_values (daily_stats s))))"

section \<open>Session data and the transport\<close>

text \<open>
  \<open>context.user_data\<close> holds two keys. \<open>pending_images\<close> is the list of staged
  images, each a pair of the temporary file's path and the original file name; it is
  \<open>None\<close> while the key is absent. \<open>message_to_edit\<close> is the handle of the status
  message, \<open>None\<close> when the key is absent or holds Python's \<open>None\<close> (the program
  only tests its truth value).
\<close>

record user_data =
  pending_images :: "(string \<times> string) list option"
  message_to_edit :: "nat option"

text \<open>
  The texts the handlers send. Each constructor is one message of the source and carries
  the values its f-string is built from; how the numbers are printed (\<open>format_size\<close>,
  \<open>:.1f\<close>) is floating-point formatting and is not part of the model, and neither is
  the elapsed time of the final summary.
\<close>

datatype message =
    NoSupportedImagesInZip \<comment> \<open>line 373\<close>
  | StatusText "(string \<times> string) list" \<comment> \<open>lines 376-379, built from the pending list\<close>
  | PleaseSendZip \<comment> \<open>line 388\<close>
  | DocumentError \<comment> \<open>line 392\<close>
  | Preparing nat string \<comment> \<open>line 405: number of images, target format\<close>
  | ItemError string \<comment> \<open>line 476: original file name\<close>
  | Progress int nat int int
      \<comment> \<open>lines 467-470: successes so far, batch length, original and converted bytes so far\<close>
  | NothingConverted \<comment> \<open>line 507\<close>
  | FinalStatus int nat int int rat
      \<comment> \<open>lines 511-518: successes, batch length, original and converted totals, percentage\<close>
  | CriticalError \<comment> \<open>line 536\<close>
  | NoImagesFound \<comment> \<open>line 532\<close>

text \<open>
  What a handler does to the outside, in the order it does it: the calls to the chat
  transport and the archive it writes. A call is recorded when it is made, whether or
  not the transport then raises.
\<close>

datatype event =
    ReplyText message
  | EditText nat message
  | CreateZip "(string \<times> string) list"
      \<comment> \<open>lines 487-490: the archive written, one (file path, member name) per member\<close>
  | SendDocument "(string \<times> string) list" int string
      \<comment> \<open>lines 493-497: the archive sent, with the count and format of its caption\<close>

text \<open>
  What the transport answers: \<open>reply_text\<close> gives the handle of the new message or
  raises (\<open>None\<close>); \<open>edit_text\<close> and \<open>send_document\<close> succeed or raise.
\<close>

record transport =
  reply_text :: "message \<Rightarrow> nat option"
  edit_text :: "nat \<Rightarrow> message \<Rightarrow> bool"
  send_document :: "(string \<times> string) list \<Rightarrow> bool"

section \<open>Staging an archive (handle_document, lines 330-392)\<close>

text \<open>
  \<open>extractall\<close> leaves a directory tree in the temporary directory. \<open>os.listdir\<close>
  gives the names at its top level; \<open>os.path.isfile\<close> is true of a regular file.
\<close>

datatype fs_node = File string | Dir "(string \<times> fs_node) list"

fun isfile :: "fs_node \<Rightarrow> bool" where
  "isfile (File content) = True"
| "isfile (Dir entries) = False"

fun read_bytes :: "fs_node \<Rightarrow> string" where
  \<comment> \<open>\<open>open(path, 'rb').read()\<close>, which the program calls on regular files only\<close>
  "read_bytes (File content) = content"
| "read_bytes (Dir entries) = []"

definition image_extensions :: "string list" where
  \<comment> \<open>the list of line 356\<close>
  "image_extensions =
     [''.jpg'', ''.jpeg'', ''.png'', ''.webp'', ''.gif'', ''.tiff'', ''.bmp'', ''.avif'']"

definition has_image_extension :: "string \<Rightarrow> bool" where
  \<comment> \<open>line 356: \<open>any(filename_in_zip.lower().endswith(ext) for ext in [...])\<close>\<close>
  "has_image_extension filename = list_ex (\<lambda>ext. endswith (lower filename) ext) image_extensions"

text \<open>
  The loop of lines 353-367 over the top-level listing. \<open>temp_name i suffix\<close> is the
  path of the \<open>i\<close>-th temporary file the loop creates; creating it and copying the
  entry's bytes into it are taken to succeed. The loop returns the pending list and
  the temporary files it wrote, each with its content.
\<close>

fun stage_loop ::
  "(nat \<Rightarrow> string \<Rightarrow> string) \<Rightarrow> nat \<Rightarrow> (string \<times> fs_node) list \<Rightarrow>
   (string \<times> string) list \<times> (string \<times> string) list \<Rightarrow>
   (string \<times> string) list \<times> (string \<times> string) list" where
  "stage_loop temp_name i [] (pending, written) = (pending, written)"
| "stage_loop temp_name i ((filename_in_zip, node) # rest) (pending, written) =
     (if isfile node \<and> has_image_extension filename_in_zip
      then let temp_image_storage = temp_name i (''_'' @ filename_in_zip)
           in stage_loop temp_name (Suc i) rest
                (pending @ [(temp_image_storage, filename_in_zip)],
                 written @ [(temp_image_storage, read_bytes node)])
      else stage_loop temp_name i rest (pending, written))"

text \<open>
  What one document needs from outside: \<open>extracted\<close> is the listing of the directory
  after lines 341-353 (download, open the archive, extract, list), or the exception one
  of these raised.
\<close>

record doc_env =
  extracted :: "py_error + (string \<times> fs_node) list"
  temp_name :: "nat \<Rightarrow> string \<Rightarrow> string"

definition show_status :: "transport \<Rightarrow> message \<Rightarrow> user_data \<Rightarrow> py_error + user_data \<times> event list"
  where
  \<comment> \<open>lines 380-386: edit the status message when there is one, send a new one when
      there is none or the edit fails\<close>
  "show_status tr status_text ud =
     (case message_to_edit ud of
        Some h \<Rightarrow>
          if edit_text tr h status_text then Inr (ud, [EditText h status_text])
          else (case reply_text tr status_text of
                  Some h' \<Rightarrow> Inr (ud\<lparr>message_to_edit := Some h'\<rparr>,
                                 [EditText h status_text, ReplyText status_text])
                | None \<Rightarrow> Inl ExternalError)
      | None \<Rightarrow>
          (case reply_text tr status_text of
             Some h' \<Rightarrow> Inr (ud\<lparr>message_to_edit := Some h'\<rparr>, [ReplyText status_text])
           | None \<Rightarrow> Inl ExternalError))"

definition init_session :: "user_data \<Rightarrow> user_data" where
  \<comment> \<open>lines 337-339\<close>
  "init_session ud =
     (if pending_images ud = None then \<lparr>pending_images = Some [], message_to_edit = None\<rparr>
      else ud)"

definition pending_list :: "user_data \<Rightarrow> (string \<times> string) list" where
  \<comment> \<open>the staged images of a session, none when the key is absent\<close>
  "pending_list ud = (case pending_images ud of Some p \<Rightarrow> p | None \<Rightarrow> [])"

definition staged_from :: "doc_env \<Rightarrow> (string \<times> fs_node) list \<Rightarrow> user_data \<Rightarrow> user_data" where
  \<comment> \<open>the session after the loop of lines 353-367\<close>
  "staged_from env listing ud =
     ud\<lparr>pending_images :=
          Some (fst (stage_loop (temp_name env) 0 listing (pending_list ud, [])))\<rparr>"

definition handle_document ::
  "transport \<Rightarrow> doc_env \<Rightarrow> string \<Rightarrow> user_data \<Rightarrow> user_data \<times> event list" where
  \<comment> \<open>An exception anywhere in the body is caught at line 390 and answered with the
      error text of line 392; what was written to the session before stays written.\<close>
  "handle_document tr env mime_type ud =
     (if mime_type = ''application/zip'' then
        let ud1 = init_session ud in
        case extracted env of
          Inl e \<Rightarrow> (ud1, [ReplyText DocumentError])
        | Inr listing \<Rightarrow>
            let ud2 = staged_from env listing ud1 in
            if pending_list ud2 = [] then
              (case reply_text tr NoSupportedImagesInZip of
                 Some h \<Rightarrow> (ud2, [ReplyText NoSupportedImagesInZip])
               | None \<Rightarrow> (ud2, [ReplyText NoSupportedImagesInZip, ReplyText DocumentError]))
            else
              (case show_status tr (StatusText (pending_list ud2)) ud2 of
                 Inr (ud3, evs) \<Rightarrow> (ud3, evs)
               | Inl e \<Rightarrow>
                   (ud2,
                    (case message_to_edit ud2 of
                       Some h \<Rightarrow> [EditText h (StatusText (pending_list ud2))]
                     | None \<Rightarrow> []) @
                    [ReplyText (StatusText (pending_list ud2)), ReplyText DocumentError]))
      else
        (case reply_text tr PleaseSendZip of
           Some h \<Rightarrow> (ud, [ReplyText PleaseSendZip])
         | None \<Rightarrow> (ud, [ReplyText PleaseSendZip, ReplyText DocumentError])))"

definition staged_entries :: "(string \<times> fs_node) list \<Rightarrow> (string \<times> fs_node) list" where
  \<comment> \<open>the top-level entries that are regular files with a supported extension\<close>
  "staged_entries listing =
     filter (\<lambda>(filename, node). isfile node \<and> has_image_extension filename) listing"

section \<open>Converting a batch (button_callback, lines 395-536)\<close>

text \<open>
  What a batch needs from outside, asked by the path of a staged file:
  \<^item> \<open>path_exists\<close> and \<open>path_getsize\<close> are \<open>os.path.exists\<close> and
    \<open>os.path.getsize\<close> at lines 418 and 422;
  \<^item> \<open>image_open\<close> is \<open>Image.open\<close> at line 428: the mode of the opened image, or
    \<open>None\<close> when it raises;
  \<^item> \<open>image_convert\<close> says whether \<open>img.convert\<close> to the given mode succeeds on
    the image of that path (lines 433-438) or raises;
  \<^item> \<open>image_save\<close> is the outcome of \<open>img.save\<close> at line 451 for the image of that
    path, in the given mode, for the given target format: it raises, or the output file
    is missing afterwards, or it is there with a size (lines 454 and 459);
  \<^item> \<open>output_path i\<close> is the temporary file that \<open>NamedTemporaryFile\<close> creates for
    the \<open>i\<close>-th item at line 447; creating it is taken to succeed;
  \<^item> \<open>clock_today\<close> and \<open>clock_month\<close> are the strings the statistics compute from
    the clock.
\<close>

datatype save_result = SaveRaises | OutputMissing | OutputSize nat

record conv_env =
  path_exists :: "string \<Rightarrow> bool"
  path_getsize :: "string \<Rightarrow> nat"
  image_open :: "string \<Rightarrow> string option"
  image_convert :: "string \<Rightarrow> string \<Rightarrow> bool"
  image_save :: "string \<Rightarrow> string \<Rightarrow> string \<Rightarrow> save_result"
  output_path :: "nat \<Rightarrow> string"
  clock_today :: string
  clock_month :: string

text \<open>
  The local variables of the loop, with the transport calls made so far, the statistics
  and the converted temporary files that are on disk. \<open>output_converted_path\<close> is a
  local variable of the whole handler: it is unbound (\<open>None\<close>) until the first item
  reaches line 448 and keeps its value from one iteration to the next.
\<close>

record loop_state =
  converted_files_paths :: "(string \<times> string) list"
  total_original_size :: int
  total_converted_size :: int
  successfully_converted_count :: int
  output_converted_path :: "string option"
  output_files :: "string list"
  ls_events :: "event list"
  ls_stats :: stats_data

text \<open>
  A part of the handler either runs to its end or is left by an exception that the
  outer \<open>except\<close> of line 534 catches.
\<close>

datatype loop_result = Completed loop_state | Aborted loop_state

fun state_of :: "loop_result \<Rightarrow> loop_state" where
  "state_of (Completed ls) = ls"
| "state_of (Aborted ls) = ls"

definition add_event :: "event \<Rightarrow> loop_state \<Rightarrow> loop_state" where
  "add_event e ls = ls\<lparr>ls_events := ls_events ls @ [e]\<rparr>"

definition unlink_output :: "string \<Rightarrow> loop_state \<Rightarrow> loop_state" where
  \<comment> \<open>\<open>if os.path.exists(p): os.unlink(p)\<close> on a converted temporary file\<close>
  "unlink_output p ls = ls\<lparr>output_files := removeAll p (output_files ls)\<rparr>"

definition item_failed :: "transport \<Rightarrow> string \<Rightarrow> loop_state \<Rightarrow> loop_result" where
  \<comment> \<open>lines 474-479: the per-item \<open>except\<close>. The notice itself may raise; after it,
      the file that \<open>output_converted_path\<close> names is deleted when the variable is bound
      and the file exists, whichever iteration bound it.\<close>
  "item_failed tr original_filename ls =
     (case reply_text tr (ItemError original_filename) of
        Some h \<Rightarrow>
          Completed
            (let ls' = add_event (ReplyText (ItemError original_filename)) ls
             in case output_converted_path ls' of
                  Some p \<Rightarrow> unlink_output p ls'
                | None \<Rightarrow> ls')
      | None \<Rightarrow> Aborted (add_event (ReplyText (ItemError original_filename)) ls))"

definition report_progress :: "transport \<Rightarrow> nat \<Rightarrow> nat \<Rightarrow> loop_state \<Rightarrow> loop_state" where
  \<comment> \<open>lines 466-472: a failure of the edit is caught and logged\<close>
  "report_progress tr status n ls =
     (if successfully_converted_count ls mod 5 = 0 \<or> successfully_converted_count ls = int n
      then add_event
             (EditText status
                (Progress (successfully_converted_count ls) n
                   (total_original_size ls) (total_converted_size ls))) ls
      else ls)"

definition convert_item ::
  "transport \<Rightarrow> conv_env \<Rightarrow> string \<Rightarrow> nat \<Rightarrow> nat \<Rightarrow> nat \<Rightarrow> string \<times> string \<Rightarrow>
   loop_state \<Rightarrow> loop_result" where
  \<comment> \<open>the body of the loop, lines 416-479, for the \<open>i\<close>-th item of a batch of \<open>n\<close>\<close>
  "convert_item tr env target_format n status i item ls =
     (case item of (temp_file_path, original_filename) \<Rightarrow>
      if \<not> path_exists env temp_file_path then Completed ls
      else
        let current_original_size = int (path_getsize env temp_file_path) in
        if current_original_size = 0 then Completed ls
        else
          let ls1 = ls\<lparr>total_original_size := total_original_size ls + current_original_size\<rparr>
          in
          case image_open env temp_file_path of
            None \<Rightarrow> item_failed tr original_filename ls1
          | Some mode \<Rightarrow>
              let mode' = normalize_mode target_format mode in
              if mode' \<noteq> mode \<and> \<not> image_convert env temp_file_path mode'
              then item_failed tr original_filename ls1
              else
              case map_of SUPPORTED_FORMATS target_format of
                None \<Rightarrow> item_failed tr original_filename ls1
              | Some extension \<Rightarrow>
                  let filename_in_zip = fst (splitext original_filename) @ extension;
                      output = output_path env i;
                      ls2 = ls1\<lparr>output_converted_path := Some output,
                                output_files := output_files ls1 @ [output]\<rparr>
                  in
                  case image_save env temp_file_path mode' target_format of
                    SaveRaises \<Rightarrow> item_failed tr original_filename ls2
                  | OutputMissing \<Rightarrow> Completed (unlink_output output ls2)
                  | OutputSize output_size \<Rightarrow>
                      if output_size = 0 then Completed (unlink_output output ls2)
                      else
                        let current_converted_size = int output_size;
                            ls3 = ls2
                              \<lparr>total_converted_size :=
                                 total_converted_size ls2 + current_converted_size,
                               ls_stats :=
                                 update_conversion_stats (clock_today env) (clock_month env)
                                   current_original_size current_converted_size target_format
                                   (ls_stats ls2),
                               converted_files_paths :=
                                 converted_files_paths ls2 @ [(output, filename_in_zip)],
                               successfully_converted_count :=
                                 successfully_converted_count ls2 + 1\<rparr>
                        in Completed (report_progress tr status n ls3))"

fun convert_loop ::
  "transport \<Rightarrow> conv_env \<Rightarrow> string \<Rightarrow> nat \<Rightarrow> nat \<Rightarrow> nat \<Rightarrow> (string \<times> string) list \<Rightarrow>
   loop_state \<Rightarrow> loop_result" where
  \<comment> \<open>the loop of line 415; an exception that leaves an item's \<open>except\<close> ends it\<close>
  "convert_loop tr env target_format n status i [] ls = Completed ls"
| "convert_loop tr env target_format n status i (item # rest) ls =
     (case convert_item tr env target_format n status i item ls of
        Completed ls' \<Rightarrow> convert_loop tr env target_format n status (Suc i) rest ls'
      | Aborted ls' \<Rightarrow> Aborted ls')"

definition deliver :: "transport \<Rightarrow> string \<Rightarrow> loop_state \<Rightarrow> loop_result" where
  \<comment> \<open>lines 481-507: write and send the archive when there are results, say that nothing
      was converted otherwise. \<open>zipf.write\<close> raises at the first converted file that is
      no longer on disk; the archive then holds the members written before it and is not
      sent. After the upload the converted files are deleted (lines 501-504).\<close>
  "deliver tr target_format ls =
     (if converted_files_paths ls \<noteq> [] then
        let written = takeWhile (\<lambda>(file_path, filename_in_zip). file_path \<in> set (output_files ls))
                        (converted_files_paths ls);
            ls1 = add_event (CreateZip written) ls
        in if written \<noteq> converted_files_paths ls then Aborted ls1
           else
             let ls2 = add_event
                         (SendDocument (converted_files_paths ls)
                            (successfully_converted_count ls) target_format) ls1
             in if send_document tr (converted_files_paths ls)
                then Completed
                       (ls2\<lparr>output_files :=
                              filter (\<lambda>p. p \<notin> set (map fst (converted_files_paths ls)))
                                (output_files ls2)\<rparr>)
                else Aborted ls2
      else
        (case reply_text tr NothingConverted of
           Some h \<Rightarrow> Completed (add_event (ReplyText NothingConverted) ls)
         | None \<Rightarrow> Aborted (add_event (ReplyText NothingConverted) ls)))"

definition py_truediv :: "int \<Rightarrow> int \<Rightarrow> py_error + rat" where
  \<comment> \<open>\<open>a / b\<close> on integers raises when \<open>b\<close> is 0. The quotient is the exact rational;
      Python gives the nearest double.\<close>
  "py_truediv a b = (if b = 0 then Inl ZeroDivisionError else Inr (of_int a / of_int b))"

definition size_reduction_percent :: "int \<Rightarrow> int \<Rightarrow> py_error + rat" where
  \<comment> \<open>line 510\<close>
  "size_reduction_percent original converted =
     (if original > 0
      then (case py_truediv (original - converted) original of
              Inl e \<Rightarrow> Inl e
            | Inr q \<Rightarrow> Inr (q * 100))
      else Inr 0)"

definition summarize :: "transport \<Rightarrow> nat \<Rightarrow> nat \<Rightarrow> loop_state \<Rightarrow> loop_result" where
  \<comment> \<open>lines 509-520: the final summary replaces the status message\<close>
  "summarize tr status n ls =
     (case size_reduction_percent (total_original_size ls) (total_converted_size ls) of
        Inl e \<Rightarrow> Aborted ls
      | Inr percent \<Rightarrow>
          let final_status_text =
                FinalStatus (successfully_converted_count ls) n
                  (total_original_size ls) (total_converted_size ls) percent;
              ls' = add_event (EditText status final_status_text) ls
          in if edit_text tr status final_status_text then Completed ls' else Aborted ls')"

definition initial_loop_state :: "nat \<Rightarrow> string \<Rightarrow> stats_data \<Rightarrow> loop_state" where
  \<comment> \<open>lines 406-413\<close>
  "initial_loop_state n target_format st =
     \<lparr>converted_files_paths = [], total_original_size = 0, total_converted_size = 0,
      successfully_converted_count = 0, output_converted_path = None, output_files = [],
      ls_events = [ReplyText (Preparing n target_format)], ls_stats = st\<rparr>"

definition run_batch ::
  "transport \<Rightarrow> conv_env \<Rightarrow> string \<Rightarrow> nat \<Rightarrow> (string \<times> string) list \<Rightarrow> stats_data \<Rightarrow>
   loop_result" where
  \<comment> \<open>lines 409-520, once the status message \<open>status\<close> has been sent\<close>
  "run_batch tr env target_format status pending_files_data st =
     (let n = length pending_files_data in
      case convert_loop tr env target_format n status 0 pending_files_data
             (initial_loop_state n target_format st) of
        Aborted ls \<Rightarrow> Aborted ls
      | Completed ls \<Rightarrow>
          (case deliver tr target_format ls of
             Aborted ls' \<Rightarrow> Aborted ls'
           | Completed ls' \<Rightarrow> summarize tr status n ls'))"

definition parse_target :: "string \<Rightarrow> py_error + string" where
  \<comment> \<open>line 401: \<open>query.data.split('_')[1].upper()\<close>\<close>
  "parse_target data =
     (case split_on (CHR ''_'') data of
        a # b # rest \<Rightarrow> Inr (upper b)
      | _ \<Rightarrow> Inl IndexError)"

definition cleared_session :: user_data where
  \<comment> \<open>lines 528-529\<close>
  "cleared_session = \<lparr>pending_images = Some [], message_to_edit = None\<rparr>"

definition button_callback ::
  "transport \<Rightarrow> conv_env \<Rightarrow> string \<Rightarrow> user_data \<Rightarrow> stats_data \<Rightarrow>
   user_data \<times> event list \<times> stats_data" where
  \<comment> \<open>The handler from line 400 on: the session, the transport calls and the statistics
      it leaves. Every exception ends in the \<open>except\<close> of line 534, which sends the
      critical-error text and touches nothing else.\<close>
  "button_callback tr env data ud st =
     (case parse_target data of
        Inl e \<Rightarrow> (ud, [ReplyText CriticalError], st)
      | Inr target_format \<Rightarrow>
          (case pending_images ud of
             Some (item # items) \<Rightarrow>
               (case reply_text tr (Preparing (length (item # items)) target_format) of
                  None \<Rightarrow>
                    (ud, [ReplyText (Preparing (length (item # items)) target_format),
                          ReplyText CriticalError], st)
                | Some status \<Rightarrow>
                    (case run_batch tr env target_format status (item # items) st of
                       Aborted ls \<Rightarrow> (ud, ls_events ls @ [ReplyText CriticalError], ls_stats ls)
                     | Completed ls \<Rightarrow> (cleared_session, ls_events ls, ls_stats ls)))
           | _ \<Rightarrow>
               (case reply_text tr NoImagesFound of
                  Some h \<Rightarrow> (ud, [ReplyText NoImagesFound], st)
                | None \<Rightarrow> (ud, [ReplyText NoImagesFound, ReplyText CriticalError], st))))"

definition is_archive_event :: "event \<Rightarrow> bool" where
  "is_archive_event e =
     (case e of CreateZip members \<Rightarrow> True | SendDocument members c f \<Rightarrow> True | _ \<Rightarrow> False)"

definition is_progress :: "event \<Rightarrow> bool" where
  "is_progress e = (case e of EditText h (Progress c n a b) \<Rightarrow> True | _ \<Rightarrow> False)"

fun progress_of :: "event \<Rightarrow> (int \<times> nat) list" where
  \<comment> \<open>the two counts a progress report shows: successes so far and batch length\<close>
  "progress_of (EditText h (Progress c n a b)) = [(c, n)]"
| "progress_of e = []"

definition progress_counts :: "event list \<Rightarrow> (int \<times> nat) list" where
  \<comment> \<open>the counts of the progress reports among the events, in order\<close>
  "progress_counts evs = concat (map progress_of evs)"

definition report_due :: "nat \<Rightarrow> int \<Rightarrow> bool" where
  \<comment> \<open>the guard of line 466 at a success count \<open>k\<close>, in a batch of \<open>n\<close>\<close>
  "report_due n k = (k mod 5 = 0 \<or> k = int n)"

section \<open>Example runs\<close>

text \<open>Concrete inputs at which the theorems below are evaluated.\<close>

definition ok_transport :: transport where
  \<comment> \<open>a transport on which every call succeeds\<close>
  "ok_transport =
     \<lparr>reply_text = (\<lambda>m. Some 1), edit_text = (\<lambda>h m. True), send_document = (\<lambda>members. True)\<rparr>"

definition upload_fails_transport :: transport where
  \<comment> \<open>a transport that refuses the upload of the archive and accepts every text\<close>
  "upload_fails_transport =
     \<lparr>reply_text = (\<lambda>m. Some 1), edit_text = (\<lambda>h m. True), send_document = (\<lambda>members. False)\<rparr>"

definition session_of :: "(string \<times> string) list \<Rightarrow> user_data" where
  "session_of pending = \<lparr>pending_images = Some pending, message_to_edit = Some 0\<rparr>"

definition three_images :: "(string \<times> string) list" where
  "three_images =
     [(''/tmp/in_a'', ''a.png''), (''/tmp/in_b'', ''b.png''), (''/tmp/in_c'', ''c.png'')]"

definition three_images_env :: conv_env where
  \<comment> \<open>\<open>a.png\<close> has 50 KB and converts to 20 KB, \<open>b.png\<close> has 30 KB and converts to
      15 KB, \<open>c.png\<close> has 10 KB that the imaging library cannot open\<close>
  "three_images_env =
     \<lparr>path_exists = (\<lambda>p. True),
      path_getsize =
        (\<lambda>p. if p = ''/tmp/in_a'' then 51200 else if p = ''/tmp/in_b'' then 30720 else 10240),
      image_open = (\<lambda>p. if p = ''/tmp/in_c'' then None else Some ''RGB''),
      image_convert = (\<lambda>p mode. True),
      image_save =
        (\<lambda>p mode target_format. if p = ''/tmp/in_a'' then OutputSize 20480 else OutputSize 15360),
      output_path =
        (\<lambda>i. if i = 0 then ''/tmp/out_0'' else if i = 1 then ''/tmp/out_1'' else ''/tmp/out_2''),
      clock_today = ''2024-05-01'',
      clock_month = ''2024-05''\<rparr>"

definition failure_first :: "(string \<times> string) list" where
  \<comment> \<open>the same three images, the unreadable one first\<close>
  "failure_first =
     [(''/tmp/in_c'', ''c.png''), (''/tmp/in_a'', ''a.png''), (''/tmp/in_b'', ''b.png'')]"

definition unreadable_env :: conv_env where
  \<comment> \<open>every staged file is there, has 100 bytes and cannot be opened as an image\<close>
  "unreadable_env =
     \<lparr>path_exists = (\<lambda>p. True), path_getsize = (\<lambda>p. 100), image_open = (\<lambda>p. None),
      image_convert = (\<lambda>p mode. True), image_save = (\<lambda>p mode target_format. SaveRaises),
      output_path = (\<lambda>i. ''/tmp/out''),
      clock_today = ''2024-05-01'', clock_month = ''2024-05''\<rparr>"

definition missing_env :: conv_env where
  \<comment> \<open>every staged file has disappeared\<close>
  "missing_env =
     \<lparr>path_exists = (\<lambda>p. False), path_getsize = (\<lambda>p. 0), image_open = (\<lambda>p. None),
      image_convert = (\<lambda>p mode. True), image_save = (\<lambda>p mode target_format. SaveRaises),
      output_path = (\<lambda>i. ''/tmp/out''),
      clock_today = ''2024-05-01'', clock_month = ''2024-05''\<rparr>"

definition alpha_source_env :: conv_env where
  \<comment> \<open>every staged file is a 50 KB image of mode \<open>RGBA\<close>; the encoder writes 20 KB
      from an image of mode \<open>RGB\<close> and raises on every other mode\<close>
  "alpha_source_env =
     \<lparr>path_exists = (\<lambda>p. True), path_getsize = (\<lambda>p. 51200),
      image_open = (\<lambda>p. Some ''RGBA''),
      image_convert = (\<lambda>p mode. True),
      image_save =
        (\<lambda>p mode target_format. if mode = ''RGB'' then OutputSize 20480 else SaveRaises),
      output_path = (\<lambda>i. ''/tmp/out_'' @ replicate i (CHR ''x'')),
      clock_today = ''2024-05-01'', clock_month = ''2024-05''\<rparr>"

definition six_images :: "(string \<times> string) list" where
  "six_images =
     [(''/tmp/in_1'', ''1.png''), (''/tmp/in_2'', ''2.png''), (''/tmp/in_3'', ''3.png''),
      (''/tmp/in_4'', ''4.png''), (''/tmp/in_5'', ''5.png''), (''/tmp/in_6'', ''6.png'')]"

definition all_convert_env :: conv_env where
  \<comment> \<open>every staged file is an image of 1000 bytes that converts to 400 bytes\<close>
  "all_convert_env =
     \<lparr>path_exists = (\<lambda>p. True), path_getsize = (\<lambda>p. 1000),
      image_open = (\<lambda>p. Some ''RGB''),
      image_convert = (\<lambda>p mode. True),
      image_save = (\<lambda>p mode target_format. OutputSize 400),
      output_path = (\<lambda>i. ''/tmp/out_'' @ replicate i (CHR ''x'')),
      clock_today = ''2024-05-01'', clock_month = ''2024-05''\<rparr>"

definition doc_env_of :: "(string \<times> fs_node) list \<Rightarrow> doc_env" where
  "doc_env_of listing =
     \<lparr>extracted = Inr listing, temp_name = (\<lambda>i suffix. ''/tmp/tmp'' @ suffix)\<rparr>"


definition nested_listing :: "(string \<times> fs_node) list" where
  "nested_listing = [(''album'', Dir [(''deep.png'', File ''1'')]), (''top.png'', File ''2'')]"

section \<open>Facts about dictionaries\<close>

lemma sum_list_update:
  fixes g :: "'v \<Rightarrow> int"
  shows "sum_list (map g (map snd (AList.update k v d))) =
         sum_list (map g (map snd d)) - (case map_of d k of Some w \<Rightarrow> g w | None \<Rightarrow> 0) + g v"
  by (induction d) auto

lemma map_of_update_same: "map_of (AList.update k v d) k = Some v"
  by (simp add: AList.update_conv')

lemma sum_bump_format:
  "sum_list (dict_values (bump_format f d)) = sum_list (dict_values d) + 1"
proof (cases "map_of d f")
  case None
  then show ?thesis
    using sum_list_update [of "\<lambda>x. x" f 0 d]
          sum_list_update [of "\<lambda>x. x" f 1 "AList.update f 0 d"]
    by (simp add: bump_format_def dict_contains_def dict_values_def map_of_update_same)
next
  case (Some n)
  then show ?thesis
    using sum_list_update [of "\<lambda>x. x" f "n + 1" d]
    by (simp add: bump_format_def dict_contains_def dict_values_def)
qed

lemma sum_bump_period:
  "sum_list (map images (dict_values (bump_period k a b d))) =
   sum_list (map images (dict_values d)) + 1"
proof (cases "map_of d k")
  case None
  then show ?thesis
    using sum_list_update [of images k zero_period d]
          sum_list_update [of images k
            "zero_period\<lparr>images := images zero_period + 1,
               size_original := size_original zero_period + a,
               size_converted := size_converted zero_period + b\<rparr>"
            "AList.update k zero_period d"]
    by (simp add: bump_period_def dict_contains_def dict_values_def map_of_update_same
        zero_period_def)
next
  case (Some p)
  then show ?thesis
    using sum_list_update [of images k
            "p\<lparr>images := images p + 1, size_original := size_original p + a,
               size_converted := size_converted p + b\<rparr>" d]
    by (simp add: bump_period_def dict_contains_def dict_values_def)
qed

lemma format_count_bump:
  "(case map_of (bump_format f d) f of Some n \<Rightarrow> n | None \<Rightarrow> 0) =
   (case map_of d f of Some n \<Rightarrow> n | None \<Rightarrow> 0) + 1"
  by (cases "map_of d f")
     (simp_all add: bump_format_def dict_contains_def map_of_update_same)

lemma day_images_bump:
  "(case map_of (bump_period k a b d) k of Some p \<Rightarrow> images p | None \<Rightarrow> 0) =
   (case map_of d k of Some p \<Rightarrow> images p | None \<Rightarrow> 0) + 1"
  by (cases "map_of d k")
     (simp_all add: bump_period_def dict_contains_def map_of_update_same zero_period_def)

section \<open>Colour-mode normalisation\<close>

text \<open>
  Claim C1, as stated, at a greyscale image with an alpha channel (mode \<open>LA\<close>) and the
  JPEG target: the mode has an alpha channel, and the image reaches the encoder in mode
  \<open>LA\<close>, not flattened to \<open>RGB\<close>. The same holds for the palette mode \<open>PA\<close>.
\<close>

theorem normalize_mode_alpha_counterexample:
  "has_alpha_channel ''LA'' \<and> normalize_mode ''JPEG'' ''LA'' = ''LA'' \<and>
   has_palette ''PA'' \<and> normalize_mode ''JPEG'' ''PA'' = ''PA''"
  by (simp add: has_alpha_channel_def has_palette_def normalize_mode_def)

section \<open>The statistics invariant\<close>

text \<open>
  Claim C7. The totals agree, \<open>total_images\<close> = sum of the per-format counters = sum of
  the per-day image counters, for the counters a fresh start gives (all zero), and every
  call of \<open>update_conversion_stats\<close> keeps them in agreement; the call adds exactly 1
  to the total, to the counter of the chosen format and to the image counter of the
  current day.
\<close>

theorem stats_invariant_preserved:
  "stats_invariant initial_stats \<and>
   (stats_invariant s \<longrightarrow>
      stats_invariant (update_conversion_stats today month a b f s)) \<and>
   total_images (update_conversion_stats today month a b f s) = total_images s + 1 \<and>
   format_count (update_conversion_stats today month a b f s) f = format_count s f + 1 \<and>
   day_images (update_conversion_stats today month a b f s) today = day_images s today + 1"
proof -
  have init: "stats_invariant initial_stats"
    by (simp add: stats_invariant_def initial_stats_def dict_values_def)
  have pres: "stats_invariant s \<longrightarrow>
      stats_invariant (update_conversion_stats today month a b f s)"
    by (simp add: stats_invariant_def update_conversion_stats_def sum_bump_format
        sum_bump_period)
  have tot: "total_images (update_conversion_stats today month a b f s) = total_images s + 1"
    by (simp add: update_conversion_stats_def)
  have fmt: "format_count (update_conversion_stats today month a b f s) f = format_count s f + 1"
    by (simp add: format_count_def update_conversion_stats_def format_count_bump)
  have day: "day_images (update_conversion_stats today month a b f s) today
      = day_images s today + 1"
    by (simp add: day_images_def update_conversion_stats_def day_images_bump)
  from init pres tot fmt day show ?thesis by blast
qed

theorem stats_invariant_preserved_witness:
  "stats_invariant initial_stats \<and>
   stats_invariant
     (update_conversion_stats ''2024-05-01'' ''2024-05'' 51200 20480 ''WEBP'' initial_stats) \<and>
   total_images
     (update_conversion_stats ''2024-05-01'' ''2024-05'' 51200 20480 ''WEBP'' initial_stats) = 1"
  using stats_invariant_preserved
    [of initial_stats "''2024-05-01''" "''2024-05''" 51200 20480 "''WEBP''"]
  by (simp add: initial_stats_def)

section \<open>Staging an archive\<close>

lemma stage_loop_append:
  "\<exists>new. fst (stage_loop tn i listing (p, w)) = p @ new \<and>
         map snd new = map fst (staged_entries listing)"
proof (induction listing arbitrary: i p w)
  case Nil
  then show ?case by (simp add: staged_entries_def)
next
  case (Cons e rest)
  obtain filename node where e: "e = (filename, node)" by (cases e)
  show ?case
  proof (cases "isfile node \<and> has_image_extension filename")
    case True
    from Cons.IH [of "Suc i" "p @ [(tn i (''_'' @ filename), filename)]"
        "w @ [(tn i (''_'' @ filename), read_bytes node)]"]
    obtain new where
      "fst (stage_loop tn (Suc i) rest (p @ [(tn i (''_'' @ filename), filename)],
          w @ [(tn i (''_'' @ filename), read_bytes node)])) =
        (p @ [(tn i (''_'' @ filename), filename)]) @ new"
      "map snd new = map fst (staged_entries rest)" by blast
    then show ?thesis using e True
      by (intro exI [of _ "(tn i (''_'' @ filename), filename) # new"])
         (simp add: staged_entries_def Let_def)
  next
    case False
    then show ?thesis using e Cons.IH [of i p w]
      by (auto simp add: staged_entries_def)
  qed
qed

lemma stage_loop_skips_dir:
  "stage_loop tn i (xs @ (d, Dir sub) # ys) acc = stage_loop tn i (xs @ ys) acc"
proof (induction xs arbitrary: i acc)
  case Nil
  then show ?case by (cases acc) simp
next
  case (Cons e xs)
  obtain filename node where e: "e = (filename, node)" by (cases e)
  obtain p w where acc: "acc = (p, w)" by (cases acc)
  show ?case using e acc Cons.IH
    by (simp add: Let_def)
qed

lemma show_status_pending:
  "show_status tr t ud = Inr (ud', evs) \<Longrightarrow> pending_images ud' = pending_images ud"
  by (auto simp add: show_status_def split: option.splits if_splits)

lemma handle_document_pending:
  assumes "extracted env = Inr listing"
  shows "pending_list (fst (handle_document tr env ''application/zip'' ud)) =
         fst (stage_loop (temp_name env) 0 listing (pending_list ud, []))"
proof -
  let ?ud2 = "staged_from env listing (init_session ud)"
  have p0: "pending_list (init_session ud) = pending_list ud"
    by (simp add: init_session_def pending_list_def split: option.splits)
  have p2: "pending_list ?ud2 = fst (stage_loop (temp_name env) 0 listing (pending_list ud, []))"
    by (simp add: staged_from_def p0) (simp add: pending_list_def)
  have "pending_list (fst (handle_document tr env ''application/zip'' ud)) = pending_list ?ud2"
    using assms
    by (auto simp add: handle_document_def Let_def pending_list_def
        split: option.splits sum.splits prod.splits dest: show_status_pending)
  with p2 show ?thesis by simp
qed





text \<open>
  Claim C10. Staging does not descend into directories: every image an archive adds to
  the session carries the name of a regular file at the top level of the extracted
  tree, and a directory at the top level, whatever it contains, adds nothing (the
  session is the one the same listing without that directory gives).
\<close>

theorem archive_staging_top_level_only:
  assumes "extracted env = Inr listing"
  shows "(\<exists>new. pending_list (fst (handle_document tr env ''application/zip'' ud))
                  = pending_list ud @ new \<and>
                (\<forall>staged\<in>set new. \<exists>content. (snd staged, File content) \<in> set listing)) \<and>
         (listing = before @ (dirname, Dir entries) # after \<longrightarrow>
            pending_list (fst (handle_document tr env ''application/zip'' ud)) =
            pending_list (fst (handle_document tr (env\<lparr>extracted := Inr (before @ after)\<rparr>)
                                 ''application/zip'' ud)))"
proof -
  obtain new where new:
    "fst (stage_loop (temp_name env) 0 listing (pending_list ud, [])) = pending_list ud @ new"
    "map snd new = map fst (staged_entries listing)"
    using stage_loop_append [of "temp_name env" 0 listing "pending_list ud" "[]"] by blast
  have eq: "pending_list (fst (handle_document tr env ''application/zip'' ud))
            = pending_list ud @ new"
    using handle_document_pending [OF assms, of tr ud] new(1) by simp
  have top: "\<forall>staged\<in>set new. \<exists>content. (snd staged, File content) \<in> set listing"
  proof
    fix staged assume "staged \<in> set new"
    then have "snd staged \<in> set (map snd new)" by simp
    then have "snd staged \<in> set (map fst (staged_entries listing))" using new(2) by simp
    then obtain node where n: "(snd staged, node) \<in> set listing" "isfile node"
      by (auto simp add: staged_entries_def)
    then show "\<exists>content. (snd staged, File content) \<in> set listing"
      by (cases node) auto
  qed
  have dir: "listing = before @ (dirname, Dir entries) # after \<longrightarrow>
            pending_list (fst (handle_document tr env ''application/zip'' ud)) =
            pending_list (fst (handle_document tr (env\<lparr>extracted := Inr (before @ after)\<rparr>)
                                 ''application/zip'' ud))"
  proof
    assume l: "listing = before @ (dirname, Dir entries) # after"
    have "extracted (env\<lparr>extracted := Inr (before @ after)\<rparr>) = Inr (before @ after)" by simp
    from handle_document_pending [OF this, of tr ud]
    show "pending_list (fst (handle_document tr env ''application/zip'' ud)) =
            pending_list (fst (handle_document tr (env\<lparr>extracted := Inr (before @ after)\<rparr>)
                                 ''application/zip'' ud))"
      using handle_document_pending [OF assms, of tr ud] l
      by (simp add: stage_loop_skips_dir)
  qed
  from eq top dir show ?thesis by blast
qed

theorem archive_staging_top_level_only_witness:
  "pending_list (fst (handle_document ok_transport (doc_env_of nested_listing)
       ''application/zip'' (session_of []))) = [(''/tmp/tmp_top.png'', ''top.png'')] \<and>
   pending_list (fst (handle_document ok_transport (doc_env_of nested_listing)
       ''application/zip'' (session_of []))) =
   pending_list (fst (handle_document ok_transport (doc_env_of [(''top.png'', File ''2'')])
       ''application/zip'' (session_of [])))"
proof -
  have ex: "extracted (doc_env_of nested_listing) = Inr nested_listing"
    by (simp add: doc_env_of_def)
  have shape: "nested_listing = [] @ (''album'', Dir [(''deep.png'', File ''1'')]) # [(''top.png'', File ''2'')]"
    by (simp add: nested_listing_def)
  have upd: "(doc_env_of nested_listing)\<lparr>extracted := Inr ([] @ [(''top.png'', File ''2'')])\<rparr>
      = doc_env_of [(''top.png'', File ''2'')]"
    by (simp add: doc_env_of_def)
  have direct: "pending_list (fst (handle_document ok_transport (doc_env_of [(''top.png'', File ''2'')])
       ''application/zip'' (session_of []))) = [(''/tmp/tmp_top.png'', ''top.png'')]"
    by (simp add: handle_document_def init_session_def staged_from_def pending_list_def
        session_of_def doc_env_of_def show_status_def ok_transport_def Let_def
        has_image_extension_def image_extensions_def endswith_def lower_def
        ascii_upper_def ascii_lower_def)
  show ?thesis
    using archive_staging_top_level_only [OF ex, of ok_transport "session_of []" "[]"
        "''album''" "[(''deep.png'', File ''1'')]" "[(''top.png'', File ''2'')]"]
      shape upd direct
    by simp
qed

section \<open>Facts about one item\<close>

lemma unlink_output_fields:
  "converted_files_paths (unlink_output p ls) = converted_files_paths ls"
  "successfully_converted_count (unlink_output p ls) = successfully_converted_count ls"
  "total_original_size (unlink_output p ls) = total_original_size ls"
  "total_converted_size (unlink_output p ls) = total_converted_size ls"
  "ls_events (unlink_output p ls) = ls_events ls"
  by (simp_all add: unlink_output_def)

lemma report_progress_fields:
  "successfully_converted_count (report_progress tr status n ls) = successfully_converted_count ls"
  "total_original_size (report_progress tr status n ls) = total_original_size ls"
  "total_converted_size (report_progress tr status n ls) = total_converted_size ls"
  "converted_files_paths (report_progress tr status n ls) = converted_files_paths ls"
  by (simp_all add: report_progress_def add_event_def)

lemma report_progress_events:
  "ls_events (report_progress tr status n ls) =
     ls_events ls @
     (if successfully_converted_count ls mod 5 = 0 \<or> successfully_converted_count ls = int n
      then [EditText status
              (Progress (successfully_converted_count ls) n
                 (total_original_size ls) (total_converted_size ls))]
      else [])"
  by (simp add: report_progress_def add_event_def)

lemma item_failed_fields:
  "converted_files_paths (state_of (item_failed tr name ls)) = converted_files_paths ls"
  "successfully_converted_count (state_of (item_failed tr name ls)) =
     successfully_converted_count ls"
  "ls_events (state_of (item_failed tr name ls)) = ls_events ls @ [ReplyText (ItemError name)]"
  by (simp_all add: item_failed_def add_event_def unlink_output_def Let_def
      split: option.splits)

section \<open>Normalisation before encoding\<close>

text \<open>
  Claim C1, amended. For the JPEG target a source of mode \<open>RGBA\<close> or \<open>P\<close> is
  converted to \<open>RGB\<close>, a mode with neither alpha channel nor palette; for the WEBP and
  AVIF targets a source whose mode is neither \<open>RGB\<close> nor \<open>RGBA\<close> is converted to
  \<open>RGBA\<close>, and \<open>RGB\<close> and \<open>RGBA\<close> sources keep their mode; for every other target
  the mode passes through unchanged. This happens before encoding, for every staged
  image that is opened: when the mode changes the conversion is attempted first, and an
  image whose conversion raises is reported and gives no result; the encoder is asked
  for the image in the normalised mode, and its answer there decides the item: a
  non-empty output becomes the result named after the target's extension, a raise is
  reported and gives no result.
\<close>

theorem normalize_mode_by_target:
  "(mode \<in> {''RGBA'', ''P''} \<longrightarrow> normalize_mode ''JPEG'' mode = ''RGB'') \<and>
   \<not> has_alpha_channel ''RGB'' \<and> \<not> has_palette ''RGB'' \<and>
   (target_format \<in> {''WEBP'', ''AVIF''} \<longrightarrow>
      normalize_mode target_format mode =
        (if mode \<in> {''RGB'', ''RGBA''} then mode else ''RGBA'')) \<and>
   (target_format \<notin> {''JPEG'', ''WEBP'', ''AVIF''} \<longrightarrow>
      normalize_mode target_format mode = mode) \<and>
   (path_exists env p \<and> path_getsize env p \<noteq> 0 \<and> image_open env p = Some mode \<and>
    normalize_mode target_format mode \<noteq> mode \<and>
    \<not> image_convert env p (normalize_mode target_format mode) \<longrightarrow>
      converted_files_paths (state_of (convert_item tr env target_format n status i (p, name) ls))
        = converted_files_paths ls \<and>
      ls_events (state_of (convert_item tr env target_format n status i (p, name) ls))
        = ls_events ls @ [ReplyText (ItemError name)]) \<and>
   (path_exists env p \<and> path_getsize env p \<noteq> 0 \<and> image_open env p = Some mode \<and>
    (normalize_mode target_format mode \<noteq> mode \<longrightarrow>
       image_convert env p (normalize_mode target_format mode)) \<and>
    map_of SUPPORTED_FORMATS target_format = Some extension \<and>
    image_save env p (normalize_mode target_format mode) target_format = SaveRaises \<longrightarrow>
      converted_files_paths (state_of (convert_item tr env target_format n status i (p, name) ls))
        = converted_files_paths ls \<and>
      ls_events (state_of (convert_item tr env target_format n status i (p, name) ls))
        = ls_events ls @ [ReplyText (ItemError name)]) \<and>
   (path_exists env p \<and> path_getsize env p \<noteq> 0 \<and> image_open env p = Some mode \<and>
    (normalize_mode target_format mode \<noteq> mode \<longrightarrow>
       image_convert env p (normalize_mode target_format mode)) \<and>
    map_of SUPPORTED_FORMATS target_format = Some extension \<and>
    image_save env p (normalize_mode target_format mode) target_format = OutputSize k \<and>
    k \<noteq> 0 \<longrightarrow>
      converted_files_paths (state_of (convert_item tr env target_format n status i (p, name) ls))
        = converted_files_paths ls @ [(output_path env i, fst (splitext name) @ extension)] \<and>
      total_converted_size (state_of (convert_item tr env target_format n status i (p, name) ls))
        = total_converted_size ls + int k)"
proof -
  have modes: "(mode \<in> {''RGBA'', ''P''} \<longrightarrow> normalize_mode ''JPEG'' mode = ''RGB'') \<and>
   \<not> has_alpha_channel ''RGB'' \<and> \<not> has_palette ''RGB'' \<and>
   (target_format \<in> {''WEBP'', ''AVIF''} \<longrightarrow>
      normalize_mode target_format mode =
        (if mode \<in> {''RGB'', ''RGBA''} then mode else ''RGBA'')) \<and>
   (target_format \<notin> {''JPEG'', ''WEBP'', ''AVIF''} \<longrightarrow>
      normalize_mode target_format mode = mode)"
    by (auto simp add: normalize_mode_def has_alpha_channel_def has_palette_def)
  have conversion_raises:
    "path_exists env p \<and> path_getsize env p \<noteq> 0 \<and> image_open env p = Some mode \<and>
    normalize_mode target_format mode \<noteq> mode \<and>
    \<not> image_convert env p (normalize_mode target_format mode) \<longrightarrow>
      converted_files_paths (state_of (convert_item tr env target_format n status i (p, name) ls))
        = converted_files_paths ls \<and>
      ls_events (state_of (convert_item tr env target_format n status i (p, name) ls))
        = ls_events ls @ [ReplyText (ItemError name)]"
    by (simp add: convert_item_def Let_def item_failed_fields)
  have encoder_raises:
    "path_exists env p \<and> path_getsize env p \<noteq> 0 \<and> image_open env p = Some mode \<and>
    (normalize_mode target_format mode \<noteq> mode \<longrightarrow>
       image_convert env p (normalize_mode target_format mode)) \<and>
    map_of SUPPORTED_FORMATS target_format = Some extension \<and>
    image_save env p (normalize_mode target_format mode) target_format = SaveRaises \<longrightarrow>
      converted_files_paths (state_of (convert_item tr env target_format n status i (p, name) ls))
        = converted_files_paths ls \<and>
      ls_events (state_of (convert_item tr env target_format n status i (p, name) ls))
        = ls_events ls @ [ReplyText (ItemError name)]"
    by (auto simp add: convert_item_def Let_def item_failed_fields)
  have encoder_writes:
    "path_exists env p \<and> path_getsize env p \<noteq> 0 \<and> image_open env p = Some mode \<and>
    (normalize_mode target_format mode \<noteq> mode \<longrightarrow>
       image_convert env p (normalize_mode target_format mode)) \<and>
    map_of SUPPORTED_FORMATS target_format = Some extension \<and>
    image_save env p (normalize_mode target_format mode) target_format = OutputSize k \<and>
    k \<noteq> 0 \<longrightarrow>
      converted_files_paths (state_of (convert_item tr env target_format n status i (p, name) ls))
        = converted_files_paths ls @ [(output_path env i, fst (splitext name) @ extension)] \<and>
      total_converted_size (state_of (convert_item tr env target_format n status i (p, name) ls))
        = total_converted_size ls + int k"
    by (auto simp add: convert_item_def Let_def report_progress_fields)
  from modes conversion_raises encoder_raises encoder_writes show ?thesis by blast
qed

theorem normalize_mode_by_target_witness:
  "normalize_mode ''JPEG'' ''RGBA'' = ''RGB'' \<and>
   normalize_mode ''WEBP'' ''P'' = ''RGBA'' \<and>
   normalize_mode ''PNG'' ''P'' = ''P'' \<and>
   converted_files_paths (state_of
     (convert_item ok_transport alpha_source_env ''JPEG'' 1 1 0 (''/tmp/in_a'', ''a.png'')
        (initial_loop_state 1 ''JPEG'' initial_stats))) = [(''/tmp/out_'', ''a.jpg'')] \<and>
   converted_files_paths (state_of
     (convert_item ok_transport alpha_source_env ''PNG'' 1 1 0 (''/tmp/in_a'', ''a.png'')
        (initial_loop_state 1 ''PNG'' initial_stats))) = []"
proof -
  have jpeg: "map_of SUPPORTED_FORMATS ''JPEG'' = Some ''.jpg''"
    and png: "map_of SUPPORTED_FORMATS ''PNG'' = Some ''.png''"
    by (simp_all add: SUPPORTED_FORMATS_def)
  have name: "fst (splitext ''a.png'') = ''a''"
    by (simp add: splitext_def rfind_def)
  have env: "path_exists alpha_source_env ''/tmp/in_a''"
    "path_getsize alpha_source_env ''/tmp/in_a'' \<noteq> 0"
    "image_open alpha_source_env ''/tmp/in_a'' = Some ''RGBA''"
    "image_convert alpha_source_env ''/tmp/in_a'' ''RGB''"
    "image_save alpha_source_env ''/tmp/in_a'' ''RGB'' ''JPEG'' = OutputSize 20480"
    "image_save alpha_source_env ''/tmp/in_a'' ''RGBA'' ''PNG'' = SaveRaises"
    "output_path alpha_source_env 0 = ''/tmp/out_''"
    by (simp_all add: alpha_source_env_def)
  have init: "converted_files_paths (initial_loop_state 1 t initial_stats) = []" for t
    by (simp add: initial_loop_state_def)
  show ?thesis
    using normalize_mode_by_target [of "''RGBA''" "''JPEG''" alpha_source_env "''/tmp/in_a''"
        ok_transport 1 1 0 "''a.png''" "initial_loop_state 1 ''JPEG'' initial_stats" "''.jpg''"
        20480]
      normalize_mode_by_target [of "''P''" "''WEBP''"]
      normalize_mode_by_target [of "''P''" "''PNG''"]
      normalize_mode_by_target [of "''RGBA''" "''PNG''" alpha_source_env "''/tmp/in_a''"
        ok_transport 1 1 0 "''a.png''" "initial_loop_state 1 ''PNG'' initial_stats" "''.png''"]
      jpeg png name env init
    by simp
qed

section \<open>Results of a batch\<close>

lemma convert_item_results:
  "length (converted_files_paths (state_of (convert_item tr env tf n status i item ls)))
     \<le> Suc (length (converted_files_paths ls))"
  by (simp add: convert_item_def Let_def item_failed_fields unlink_output_fields
      report_progress_fields split: option.splits save_result.splits prod.splits)

lemma convert_loop_results:
  "length (converted_files_paths (state_of (convert_loop tr env tf n status i items ls)))
     \<le> length (converted_files_paths ls) + length items"
proof (induction items arbitrary: i ls)
  case Nil
  then show ?case by simp
next
  case (Cons item rest)
  show ?case
  proof (cases "convert_item tr env tf n status i item ls")
    case (Completed ls')
    have "length (converted_files_paths ls') \<le> Suc (length (converted_files_paths ls))"
      using convert_item_results [of tr env tf n status i item ls] Completed by simp
    moreover have "length (converted_files_paths
        (state_of (convert_loop tr env tf n status (Suc i) rest ls')))
        \<le> length (converted_files_paths ls') + length rest"
      by (rule Cons.IH)
    ultimately show ?thesis using Completed by simp
  next
    case (Aborted ls')
    then show ?thesis
      using convert_item_results [of tr env tf n status i item ls] by simp
  qed
qed

lemma deliver_results:
  "converted_files_paths (state_of (deliver tr tf ls)) = converted_files_paths ls"
  by (simp add: deliver_def add_event_def Let_def split: option.splits)

lemma summarize_results:
  "converted_files_paths (state_of (summarize tr status n ls)) = converted_files_paths ls"
  by (simp add: summarize_def add_event_def Let_def split: sum.splits)

text \<open>
  Claim C9. A batch never yields more results than it has staged images: whether the
  run ends normally or is left by an exception, the list of converted files is at most
  as long as the pending list.
\<close>

theorem results_at_most_pending:
  "length (converted_files_paths (state_of (run_batch tr env target_format status pending st)))
     \<le> length pending"
proof -
  let ?n = "length pending"
  let ?loop = "convert_loop tr env target_format ?n status 0 pending
                 (initial_loop_state ?n target_format st)"
  have loop: "length (converted_files_paths (state_of ?loop)) \<le> ?n"
    using convert_loop_results [of tr env target_format ?n status 0 pending
        "initial_loop_state ?n target_format st"]
    by (simp add: initial_loop_state_def)
  show ?thesis
  proof (cases ?loop)
    case (Aborted ls)
    then show ?thesis using loop by (simp add: run_batch_def)
  next
    case (Completed ls)
    show ?thesis
    proof (cases "deliver tr target_format ls")
      case (Aborted ls')
      then show ?thesis
        using loop Completed deliver_results [of tr target_format ls]
        by (simp add: run_batch_def)
    next
      case c2: (Completed ls')
      then show ?thesis
        using loop Completed deliver_results [of tr target_format ls]
          summarize_results [of tr status ?n ls']
        by (simp add: run_batch_def)
    qed
  qed
qed

section \<open>A batch that converts nothing\<close>

lemma convert_item_no_archive:
  "list_all (\<lambda>e. \<not> is_archive_event e) (ls_events ls) \<Longrightarrow>
   list_all (\<lambda>e. \<not> is_archive_event e)
     (ls_events (state_of (convert_item tr env tf n status i item ls)))"
  by (simp add: convert_item_def Let_def item_failed_fields unlink_output_fields
      report_progress_events is_archive_event_def
      split: option.splits save_result.splits prod.splits)

lemma convert_loop_no_archive:
  "list_all (\<lambda>e. \<not> is_archive_event e) (ls_events ls) \<Longrightarrow>
   list_all (\<lambda>e. \<not> is_archive_event e)
     (ls_events (state_of (convert_loop tr env tf n status i items ls)))"
proof (induction items arbitrary: i ls)
  case Nil
  then show ?case by simp
next
  case (Cons item rest)
  show ?case
  proof (cases "convert_item tr env tf n status i item ls")
    case (Completed ls')
    have "list_all (\<lambda>e. \<not> is_archive_event e) (ls_events ls')"
      using convert_item_no_archive [OF Cons.prems, of tr env tf n status i item] Completed
      by simp
    from Cons.IH [OF this] show ?thesis using Completed by simp
  next
    case (Aborted ls')
    then show ?thesis
      using convert_item_no_archive [OF Cons.prems, of tr env tf n status i item] by simp
  qed
qed

text \<open>
  Claim C2. When the loop over a batch ends with no converted file, the handler tells the
  user that no image was converted, and no archive is written or sent anywhere in the
  run.
\<close>

theorem nothing_converted_no_archive:
  assumes "parse_target data = Inr target_format"
    and "pending_images ud = Some pending"
    and "pending \<noteq> []"
    and "reply_text tr (Preparing (length pending) target_format) = Some status"
    and "convert_loop tr env target_format (length pending) status 0 pending
           (initial_loop_state (length pending) target_format st) = Completed ls"
    and "converted_files_paths ls = []"
  shows "ReplyText NothingConverted \<in> set (fst (snd (button_callback tr env data ud st))) \<and>
         list_all (\<lambda>e. \<not> is_archive_event e) (fst (snd (button_callback tr env data ud st)))"
proof -
  obtain item items where p: "pending = item # items"
    using assms(3) by (cases pending) auto
  have init: "list_all (\<lambda>e. \<not> is_archive_event e)
      (ls_events (initial_loop_state (length pending) target_format st))"
    by (simp add: initial_loop_state_def is_archive_event_def)
  have loop: "list_all (\<lambda>e. \<not> is_archive_event e) (ls_events ls)"
    using convert_loop_no_archive [OF init, of tr env target_format "length pending" status 0
        pending] assms(5) by simp
  let ?ls1 = "add_event (ReplyText NothingConverted) ls"
  have d: "state_of (deliver tr target_format ls) = ?ls1"
    using assms(6) by (simp add: deliver_def split: option.splits)
  have ev1: "ls_events ?ls1 = ls_events ls @ [ReplyText NothingConverted]"
    by (simp add: add_event_def)
  have run: "\<exists>extra. ls_events (state_of (run_batch tr env target_format status pending st))
        = ls_events ls @ ReplyText NothingConverted # extra \<and>
        list_all (\<lambda>e. \<not> is_archive_event e) extra"
  proof (cases "deliver tr target_format ls")
    case (Aborted ls')
    then show ?thesis using d ev1 assms(5) by (simp add: run_batch_def)
  next
    case (Completed ls')
    then have ls': "ls' = ?ls1" using d by simp
    show ?thesis using Completed ls' assms(5)
      by (auto simp add: run_batch_def summarize_def add_event_def Let_def is_archive_event_def
          split: sum.splits)
  qed
  then obtain extra where extra:
    "ls_events (state_of (run_batch tr env target_format status pending st))
        = ls_events ls @ ReplyText NothingConverted # extra"
    "list_all (\<lambda>e. \<not> is_archive_event e) extra" by blast
  have cb: "fst (snd (button_callback tr env data ud st)) =
      ls_events (state_of (run_batch tr env target_format status pending st)) \<or>
      fst (snd (button_callback tr env data ud st)) =
      ls_events (state_of (run_batch tr env target_format status pending st))
        @ [ReplyText CriticalError]"
    using assms(1,2,4) p
    by (cases "run_batch tr env target_format status (item # items) st")
       (simp_all add: button_callback_def)
  then show ?thesis
    using extra loop by (auto simp add: is_archive_event_def)
qed

lemma parse_webp: "parse_target ''convert_webp'' = Inr ''WEBP''"
  by (simp add: parse_target_def upper_def ascii_upper_def ascii_lower_def)

lemma unreadable_loop:
  "convert_loop ok_transport unreadable_env ''WEBP'' 3 1 0 three_images
     (initial_loop_state 3 ''WEBP'' initial_stats) =
   Completed \<lparr>converted_files_paths = [], total_original_size = 300, total_converted_size = 0,
      successfully_converted_count = 0, output_converted_path = None, output_files = [],
      ls_events = [ReplyText (Preparing 3 ''WEBP''), ReplyText (ItemError ''a.png''),
        ReplyText (ItemError ''b.png''), ReplyText (ItemError ''c.png'')],
      ls_stats = initial_stats\<rparr>"
  by (simp add: three_images_def unreadable_env_def ok_transport_def initial_loop_state_def
      convert_item_def item_failed_def add_event_def)

theorem nothing_converted_no_archive_witness:
  "ReplyText NothingConverted \<in> set (fst (snd (button_callback ok_transport unreadable_env
       ''convert_webp'' (session_of three_images) initial_stats))) \<and>
   list_all (\<lambda>e. \<not> is_archive_event e) (fst (snd (button_callback ok_transport unreadable_env
       ''convert_webp'' (session_of three_images) initial_stats)))"
proof -
  let ?ls = "\<lparr>converted_files_paths = [], total_original_size = 300, total_converted_size = 0,
      successfully_converted_count = 0, output_converted_path = None, output_files = [],
      ls_events = [ReplyText (Preparing 3 ''WEBP''), ReplyText (ItemError ''a.png''),
        ReplyText (ItemError ''b.png''), ReplyText (ItemError ''c.png'')],
      ls_stats = initial_stats\<rparr>"
  have len: "length three_images = 3" by (simp add: three_images_def)
  have h2: "pending_images (session_of three_images) = Some three_images"
    by (simp add: session_of_def)
  have h3: "three_images \<noteq> []" by (simp add: three_images_def)
  have h4: "reply_text ok_transport (Preparing (length three_images) ''WEBP'') = Some 1"
    by (simp add: ok_transport_def)
  have h5: "convert_loop ok_transport unreadable_env ''WEBP'' (length three_images) 1 0
      three_images (initial_loop_state (length three_images) ''WEBP'' initial_stats)
      = Completed ?ls"
    unfolding len by (rule unreadable_loop)
  have h6: "converted_files_paths ?ls = []" by simp
  show ?thesis
    by (rule nothing_converted_no_archive [OF parse_webp h2 h3 h4 h5 h6])
qed

section \<open>Runs of the handler\<close>

lemmas run_defs =
  button_callback_def run_batch_def convert_item_def item_failed_def unlink_output_def
  report_progress_def add_event_def deliver_def summarize_def size_reduction_percent_def py_truediv_def
  initial_loop_state_def normalize_mode_def SUPPORTED_FORMATS_def splitext_def rfind_def
  update_conversion_stats_def bump_format_def bump_period_def dict_contains_def
  zero_period_def initial_stats_def session_of_def three_images_def three_images_env_def
  ok_transport_def upload_fails_transport_def cleared_session_def failure_first_def
  missing_env_def


lemma three_images_run:
  "button_callback ok_transport three_images_env ''convert_webp'' (session_of three_images)
     initial_stats =
   (session_of three_images,
    [ReplyText (Preparing 3 ''WEBP''), ReplyText (ItemError ''c.png''),
     CreateZip [(''/tmp/out_0'', ''a.webp'')], ReplyText CriticalError],
    \<lparr>total_images = 2, total_size_original = 81920, total_size_converted = 35840,
       conversions_by_format = [(''WEBP'', 2)],
       daily_stats = [(''2024-05-01'',
          \<lparr>images = 2, size_original = 81920, size_converted = 35840\<rparr>)],
       monthly_stats = [(''2024-05'',
          \<lparr>images = 2, size_original = 81920, size_converted = 35840\<rparr>)]\<rparr>)"
  by (simp add: parse_webp run_defs Let_def)

lemma failure_first_run:
  "button_callback ok_transport three_images_env ''convert_webp'' (session_of failure_first)
     initial_stats =
   (cleared_session,
    [ReplyText (Preparing 3 ''WEBP''), ReplyText (ItemError ''c.png''),
     CreateZip [(''/tmp/out_1'', ''a.webp''), (''/tmp/out_2'', ''b.webp'')],
     SendDocument [(''/tmp/out_1'', ''a.webp''), (''/tmp/out_2'', ''b.webp'')] 2 ''WEBP'',
     EditText 1 (FinalStatus 2 3 92160 35840 (550 / 9))],
    \<lparr>total_images = 2, total_size_original = 81920, total_size_converted = 35840,
       conversions_by_format = [(''WEBP'', 2)],
       daily_stats = [(''2024-05-01'',
          \<lparr>images = 2, size_original = 81920, size_converted = 35840\<rparr>)],
       monthly_stats = [(''2024-05'',
          \<lparr>images = 2, size_original = 81920, size_converted = 35840\<rparr>)]\<rparr>)"
  by (simp add: parse_webp run_defs Let_def)

lemma upload_fails_run:
  "button_callback upload_fails_transport three_images_env ''convert_webp''
     (session_of failure_first) initial_stats =
   (session_of failure_first,
    [ReplyText (Preparing 3 ''WEBP''), ReplyText (ItemError ''c.png''),
     CreateZip [(''/tmp/out_1'', ''a.webp''), (''/tmp/out_2'', ''b.webp'')],
     SendDocument [(''/tmp/out_1'', ''a.webp''), (''/tmp/out_2'', ''b.webp'')] 2 ''WEBP'',
     ReplyText CriticalError],
    \<lparr>total_images = 2, total_size_original = 81920, total_size_converted = 35840,
       conversions_by_format = [(''WEBP'', 2)],
       daily_stats = [(''2024-05-01'',
          \<lparr>images = 2, size_original = 81920, size_converted = 35840\<rparr>)],
       monthly_stats = [(''2024-05'',
          \<lparr>images = 2, size_original = 81920, size_converted = 35840\<rparr>)]\<rparr>)"
  by (simp add: parse_webp run_defs Let_def)

text \<open>
  Claim C3, as stated, at a batch whose archive the transport refuses to upload: the
  handler ends in its critical-error branch and the session still holds the three
  staged images and the handle of the status message.
\<close>

theorem session_kept_on_critical_error_counterexample:
  "fst (button_callback upload_fails_transport three_images_env ''convert_webp''
         (session_of failure_first) initial_stats) =
     \<lparr>pending_images = Some [(''/tmp/in_c'', ''c.png''), (''/tmp/in_a'', ''a.png''),
        (''/tmp/in_b'', ''b.png'')], message_to_edit = Some 0\<rparr> \<and>
   last (fst (snd (button_callback upload_fails_transport three_images_env ''convert_webp''
         (session_of failure_first) initial_stats))) = ReplyText CriticalError"
  using upload_fails_run by (simp add: session_of_def failure_first_def)

text \<open>
  Claim C3, amended. Every batch conversion that ends without the critical-error
  message, with all, some or none of its images converted, leaves the session cleared:
  the pending list is empty and the handle of the status message is reset.
\<close>

theorem session_cleared_without_critical_error:
  assumes "parse_target data = Inr target_format"
    and "pending_images ud = Some pending"
    and "pending \<noteq> []"
    and "ReplyText CriticalError \<notin> set (fst (snd (button_callback tr env data ud st)))"
  shows "fst (button_callback tr env data ud st) =
           \<lparr>pending_images = Some [], message_to_edit = None\<rparr>"
proof -
  obtain item items where p: "pending = item # items"
    using assms(3) by (cases pending) auto
  show ?thesis
  proof (cases "reply_text tr (Preparing (length (item # items)) target_format)")
    case None
    then show ?thesis using assms(1,2,4) p by (simp add: button_callback_def)
  next
    case (Some status)
    then show ?thesis using assms(1,2,4) p
      by (cases "run_batch tr env target_format status (item # items) st")
         (simp_all add: button_callback_def cleared_session_def)
  qed
qed

theorem session_cleared_without_critical_error_witness:
  "fst (button_callback ok_transport three_images_env ''convert_webp''
         (session_of failure_first) initial_stats) =
     \<lparr>pending_images = Some [], message_to_edit = None\<rparr>"
proof -
  have h2: "pending_images (session_of failure_first) = Some failure_first"
    by (simp add: session_of_def)
  have h3: "failure_first \<noteq> []" by (simp add: failure_first_def)
  have h4: "ReplyText CriticalError \<notin> set (fst (snd (button_callback ok_transport
      three_images_env ''convert_webp'' (session_of failure_first) initial_stats)))"
    by (simp add: failure_first_run)
  show ?thesis
    by (rule session_cleared_without_critical_error [OF parse_webp h2 h3 h4])
qed

text \<open>
  Claim C5 on the code. Two images of 50 KB and 30 KB convert to WEBP, to 20 KB and
  15 KB, and a third of 10 KB cannot be opened.
  \<^item> When the unreadable image comes first, the archive has the two \<open>.webp\<close> members
    and the summary counts 2 of 3, but the original total it reports is 92160 bytes, the
    81920 bytes of the two successes plus the 10240 bytes of the image that failed, and
    the percentage is 550/9 (61.1), not 225/4.
  \<^item> When the unreadable image comes last, its failure deletes the converted file of the
    image before it (the variable \<open>output_converted_path\<close> still names it), writing
    the archive stops at the missing file, and the run ends in the critical-error
    branch: no archive is sent, there is no summary, and the session is not cleared.
\<close>

theorem two_of_three_scenario_runs:
  "fst (snd (button_callback ok_transport three_images_env ''convert_webp''
         (session_of failure_first) initial_stats)) =
    [ReplyText (Preparing 3 ''WEBP''), ReplyText (ItemError ''c.png''),
     CreateZip [(''/tmp/out_1'', ''a.webp''), (''/tmp/out_2'', ''b.webp'')],
     SendDocument [(''/tmp/out_1'', ''a.webp''), (''/tmp/out_2'', ''b.webp'')] 2 ''WEBP'',
     EditText 1 (FinalStatus 2 3 (81920 + 10240) 35840 (550 / 9))] \<and>
   fst (snd (button_callback ok_transport three_images_env ''convert_webp''
         (session_of three_images) initial_stats)) =
    [ReplyText (Preparing 3 ''WEBP''), ReplyText (ItemError ''c.png''),
     CreateZip [(''/tmp/out_0'', ''a.webp'')], ReplyText CriticalError] \<and>
   fst (button_callback ok_transport three_images_env ''convert_webp''
         (session_of three_images) initial_stats) = session_of three_images"
  by (simp add: three_images_run failure_first_run)

text \<open>
  Claim C6, as stated, at two batches of three images: in the first the last image
  fails, in the second the first image fails and the last one converts. Neither run
  makes a progress report.
\<close>

theorem no_progress_on_final_item_counterexample:
  "filter is_progress (fst (snd (button_callback ok_transport three_images_env ''convert_webp''
         (session_of three_images) initial_stats))) = [] \<and>
   filter is_progress (fst (snd (button_callback ok_transport three_images_env ''convert_webp''
         (session_of failure_first) initial_stats))) = []"
  by (simp add: three_images_run failure_first_run is_progress_def)

text \<open>
  Claim C8. The percentage of the final summary is always computed, never a division by
  zero, and it is exactly 0 when the original total is 0; the summary sent then shows
  0.
\<close>

theorem size_reduction_zero_total:
  "(\<exists>percent. size_reduction_percent original converted = Inr percent) \<and>
   size_reduction_percent 0 converted = Inr 0 \<and>
   (total_original_size ls = 0 \<longrightarrow>
      ls_events (state_of (summarize tr status n ls)) =
        ls_events ls @
        [EditText status
           (FinalStatus (successfully_converted_count ls) n 0 (total_converted_size ls) 0)])"
  by (simp add: size_reduction_percent_def py_truediv_def summarize_def add_event_def Let_def)

lemma missing_loop:
  "convert_loop ok_transport missing_env ''WEBP'' 3 1 0 three_images
     (initial_loop_state 3 ''WEBP'' initial_stats) =
   Completed \<lparr>converted_files_paths = [], total_original_size = 0, total_converted_size = 0,
      successfully_converted_count = 0, output_converted_path = None, output_files = [],
      ls_events = [ReplyText (Preparing 3 ''WEBP'')], ls_stats = initial_stats\<rparr>"
  by (simp add: three_images_def missing_env_def initial_loop_state_def convert_item_def)

theorem size_reduction_zero_total_witness:
  "total_original_size (state_of (convert_loop ok_transport missing_env ''WEBP'' 3 1 0
      three_images (initial_loop_state 3 ''WEBP'' initial_stats))) = 0 \<and>
   ls_events (state_of (summarize ok_transport 1 3
     (state_of (convert_loop ok_transport missing_env ''WEBP'' 3 1 0 three_images
        (initial_loop_state 3 ''WEBP'' initial_stats))))) =
   [ReplyText (Preparing 3 ''WEBP''), EditText 1 (FinalStatus 0 3 0 0 0)]"
  using size_reduction_zero_total [of 0 0
      "state_of (convert_loop ok_transport missing_env ''WEBP'' 3 1 0 three_images
        (initial_loop_state 3 ''WEBP'' initial_stats))" ok_transport 1 3]
  unfolding missing_loop by simp

section \<open>Progress reports\<close>

lemma convert_item_progress:
  assumes "convert_item tr env target_format n status i item ls = r"
  shows "filter is_progress (ls_events (state_of r)) =
     filter is_progress (ls_events ls) @
     (if successfully_converted_count (state_of r) = successfully_converted_count ls + 1 \<and>
         (successfully_converted_count (state_of r) mod 5 = 0 \<or>
          successfully_converted_count (state_of r) = int n)
      then [EditText status
              (Progress (successfully_converted_count (state_of r)) n
                 (total_original_size (state_of r)) (total_converted_size (state_of r)))]
      else [])"
  using assms
  by (auto simp add: convert_item_def Let_def item_failed_fields report_progress_events
      report_progress_fields unlink_output_fields is_progress_def
      split: option.splits save_result.splits prod.splits if_splits)

lemma progress_counts_append:
  "progress_counts (xs @ ys) = progress_counts xs @ progress_counts ys"
  by (simp add: progress_counts_def)

lemma convert_item_count_step:
  "successfully_converted_count (state_of (convert_item tr env tf n status i item ls)) =
     successfully_converted_count ls \<or>
   successfully_converted_count (state_of (convert_item tr env tf n status i item ls)) =
     successfully_converted_count ls + 1"
  by (simp add: convert_item_def Let_def item_failed_fields report_progress_fields
      unlink_output_fields split: option.splits save_result.splits prod.splits)

lemma convert_item_progress_counts:
  "progress_counts (ls_events (state_of (convert_item tr env tf n status i item ls))) =
     progress_counts (ls_events ls) @
     (if successfully_converted_count (state_of (convert_item tr env tf n status i item ls)) =
           successfully_converted_count ls + 1 \<and>
         report_due n (successfully_converted_count ls + 1)
      then [(successfully_converted_count ls + 1, n)] else [])"
  by (simp add: convert_item_def Let_def item_failed_fields report_progress_events
      report_progress_fields unlink_output_fields progress_counts_append progress_counts_def
      report_due_def split: option.splits save_result.splits prod.splits)

lemma convert_item_counts:
  assumes "convert_item tr env tf n status i item ls = r"
  shows "(successfully_converted_count (state_of r) = successfully_converted_count ls \<and>
          progress_counts (ls_events (state_of r)) = progress_counts (ls_events ls)) \<or>
         (successfully_converted_count (state_of r) = successfully_converted_count ls + 1 \<and>
          progress_counts (ls_events (state_of r)) =
            progress_counts (ls_events ls) @
            (if report_due n (successfully_converted_count ls + 1)
             then [(successfully_converted_count ls + 1, n)] else []))"
proof -
  from convert_item_count_step [of tr env tf n status i item ls]
  show ?thesis
  proof
    assume "successfully_converted_count (state_of (convert_item tr env tf n status i item ls)) =
      successfully_converted_count ls"
    then show ?thesis
      using convert_item_progress_counts [of tr env tf n status i item ls] assms by simp
  next
    assume "successfully_converted_count (state_of (convert_item tr env tf n status i item ls)) =
      successfully_converted_count ls + 1"
    then show ?thesis
      using convert_item_progress_counts [of tr env tf n status i item ls] assms by simp
  qed
qed

lemma convert_loop_counts:
  "successfully_converted_count ls \<le>
     successfully_converted_count (state_of (convert_loop tr env tf n status i items ls)) \<and>
   progress_counts (ls_events (state_of (convert_loop tr env tf n status i items ls))) =
     progress_counts (ls_events ls) @
     map (\<lambda>k. (k, n))
       (filter (report_due n)
          [successfully_converted_count ls + 1 ..
           successfully_converted_count (state_of (convert_loop tr env tf n status i items ls))])"
proof (induction items arbitrary: i ls)
  case Nil
  then show ?case by simp
next
  case (Cons item rest)
  let ?c0 = "successfully_converted_count ls"
  show ?case
  proof (cases "convert_item tr env tf n status i item ls")
    case (Aborted ls')
    then show ?thesis
      using convert_item_counts [OF Aborted] by (auto simp add: upto_rec1)
  next
    case (Completed ls')
    let ?fin = "state_of (convert_loop tr env tf n status (Suc i) rest ls')"
    let ?c1 = "successfully_converted_count ls'"
    let ?c2 = "successfully_converted_count ?fin"
    have ih: "?c1 \<le> ?c2"
      "progress_counts (ls_events ?fin) =
         progress_counts (ls_events ls') @ map (\<lambda>k. (k, n)) (filter (report_due n) [?c1 + 1 .. ?c2])"
      using Cons.IH [where i = "Suc i" and ls = ls'] by simp_all
    have loop: "convert_loop tr env tf n status i (item # rest) ls =
        convert_loop tr env tf n status (Suc i) rest ls'"
      using Completed by simp
    have step: "(?c1 = ?c0 \<and> progress_counts (ls_events ls') = progress_counts (ls_events ls)) \<or>
        (?c1 = ?c0 + 1 \<and> progress_counts (ls_events ls') =
          progress_counts (ls_events ls) @ (if report_due n (?c0 + 1) then [(?c0 + 1, n)] else []))"
      using convert_item_counts [OF Completed] by simp
    then show ?thesis
    proof (elim disjE)
      assume "?c1 = ?c0 \<and> progress_counts (ls_events ls') = progress_counts (ls_events ls)"
      then show ?thesis using ih loop by simp
    next
      assume s: "?c1 = ?c0 + 1 \<and> progress_counts (ls_events ls') =
          progress_counts (ls_events ls) @ (if report_due n (?c0 + 1) then [(?c0 + 1, n)] else [])"
      have "[?c0 + 1 .. ?c2] = (?c0 + 1) # [?c1 + 1 .. ?c2]"
        using s ih(1) by (simp add: upto_rec1)
      then show ?thesis using s ih loop by simp
    qed
  qed
qed

lemma deliver_counts:
  "successfully_converted_count (state_of (deliver tr tf ls)) = successfully_converted_count ls"
  "progress_counts (ls_events (state_of (deliver tr tf ls))) = progress_counts (ls_events ls)"
  by (simp_all add: deliver_def add_event_def Let_def progress_counts_def split: option.splits)

lemma summarize_counts:
  "successfully_converted_count (state_of (summarize tr status n ls)) =
     successfully_converted_count ls"
  "progress_counts (ls_events (state_of (summarize tr status n ls))) =
     progress_counts (ls_events ls)"
  by (simp_all add: summarize_def add_event_def Let_def progress_counts_def split: sum.splits)

lemma run_batch_counts:
  "progress_counts (ls_events (state_of (run_batch tr env tf status pending st))) =
     map (\<lambda>k. (k, length pending))
       (filter (report_due (length pending))
          [1 .. successfully_converted_count (state_of (run_batch tr env tf status pending st))])"
proof -
  let ?n = "length pending"
  let ?init = "initial_loop_state ?n tf st"
  let ?loop = "convert_loop tr env tf ?n status 0 pending ?init"
  have init: "successfully_converted_count ?init = 0" "progress_counts (ls_events ?init) = []"
    by (simp_all add: initial_loop_state_def progress_counts_def)
  have loop: "progress_counts (ls_events (state_of ?loop)) =
     map (\<lambda>k. (k, ?n)) (filter (report_due ?n) [1 .. successfully_converted_count (state_of ?loop)])"
    using convert_loop_counts [of ?init tr env tf ?n status 0 pending] init by simp
  show ?thesis
  proof (cases ?loop)
    case (Aborted ls)
    then show ?thesis using loop by (simp add: run_batch_def)
  next
    case (Completed ls)
    show ?thesis
    proof (cases "deliver tr tf ls")
      case (Aborted ls')
      then show ?thesis
        using loop Completed deliver_counts [of tr tf ls] by (simp add: run_batch_def)
    next
      case c2: (Completed ls')
      then show ?thesis
        using loop Completed deliver_counts [of tr tf ls] summarize_counts [of tr status ?n ls']
        by (simp add: run_batch_def)
    qed
  qed
qed

lemma convert_item_count_results:
  "successfully_converted_count (state_of (convert_item tr env tf n status i item ls)) -
     successfully_converted_count ls =
   int (length (converted_files_paths (state_of (convert_item tr env tf n status i item ls)))) -
     int (length (converted_files_paths ls))"
  by (simp add: convert_item_def Let_def item_failed_fields report_progress_fields
      unlink_output_fields split: option.splits save_result.splits prod.splits)

lemma convert_loop_count_results:
  "successfully_converted_count (state_of (convert_loop tr env tf n status i items ls)) -
     successfully_converted_count ls =
   int (length (converted_files_paths (state_of (convert_loop tr env tf n status i items ls)))) -
     int (length (converted_files_paths ls))"
proof (induction items arbitrary: i ls)
  case Nil
  then show ?case by simp
next
  case (Cons item rest)
  show ?case
  proof (cases "convert_item tr env tf n status i item ls")
    case (Aborted ls')
    then show ?thesis
      using convert_item_count_results [of tr env tf n status i item ls] by simp
  next
    case (Completed ls')
    then show ?thesis
      using convert_item_count_results [of tr env tf n status i item ls]
        Cons.IH [where i = "Suc i" and ls = ls']
      by simp
  qed
qed

lemma run_batch_count_results:
  "successfully_converted_count (state_of (run_batch tr env tf status pending st)) =
   int (length (converted_files_paths (state_of (run_batch tr env tf status pending st))))"
proof -
  let ?n = "length pending"
  let ?init = "initial_loop_state ?n tf st"
  let ?loop = "convert_loop tr env tf ?n status 0 pending ?init"
  have loop: "successfully_converted_count (state_of ?loop) =
      int (length (converted_files_paths (state_of ?loop)))"
    using convert_loop_count_results [of tr env tf ?n status 0 pending ?init]
    by (simp add: initial_loop_state_def)
  show ?thesis
  proof (cases ?loop)
    case (Aborted ls)
    then show ?thesis using loop by (simp add: run_batch_def)
  next
    case (Completed ls)
    show ?thesis
    proof (cases "deliver tr tf ls")
      case (Aborted ls')
      then show ?thesis
        using loop Completed deliver_counts(1) [of tr tf ls] deliver_results [of tr tf ls]
        by (simp add: run_batch_def)
    next
      case c2: (Completed ls')
      then show ?thesis
        using loop Completed deliver_counts(1) [of tr tf ls] deliver_results [of tr tf ls]
          summarize_counts(1) [of tr status ?n ls'] summarize_results [of tr status ?n ls']
        by (simp add: run_batch_def)
    qed
  qed
qed

text \<open>
  Claim C6, amended. In a batch run the progress reports are exactly these: one after
  the \<open>k\<close>-th successful conversion for every \<open>k\<close> that is a multiple of 5 or equals
  the length of the batch, in this order, each showing \<open>k\<close> and the length of the
  batch; \<open>k\<close> runs over the successes of the run, as many as it has results. Item by
  item: an item makes a progress report exactly when it converts successfully and the
  number of successes it brings is a multiple of 5 or equals the length of the batch,
  and the report carries that number, the length of the batch and the running byte
  totals; an item that is skipped or fails makes none, also when it is the last one.
\<close>

theorem progress_after_counted_success:
  "progress_counts (ls_events (state_of (run_batch tr env target_format status pending st))) =
     map (\<lambda>k. (k, length pending))
       (filter (\<lambda>k. k mod 5 = 0 \<or> k = int (length pending))
          [1 .. successfully_converted_count
                  (state_of (run_batch tr env target_format status pending st))]) \<and>
   successfully_converted_count (state_of (run_batch tr env target_format status pending st)) =
     int (length (converted_files_paths
                    (state_of (run_batch tr env target_format status pending st)))) \<and>
   filter is_progress (ls_events (state_of (convert_item tr env target_format n status i item ls)))
   = filter is_progress (ls_events ls) @
     (let ls' = state_of (convert_item tr env target_format n status i item ls) in
      if successfully_converted_count ls' = successfully_converted_count ls + 1 \<and>
         (successfully_converted_count ls' mod 5 = 0 \<or>
          successfully_converted_count ls' = int n)
      then [EditText status
              (Progress (successfully_converted_count ls') n
                 (total_original_size ls') (total_converted_size ls'))]
      else [])"
proof -
  have run: "progress_counts
      (ls_events (state_of (run_batch tr env target_format status pending st))) =
     map (\<lambda>k. (k, length pending))
       (filter (\<lambda>k. k mod 5 = 0 \<or> k = int (length pending))
          [1 .. successfully_converted_count
                  (state_of (run_batch tr env target_format status pending st))])"
    using run_batch_counts [of tr env target_format status pending st]
    by (simp add: report_due_def [abs_def])
  have item: "filter is_progress
      (ls_events (state_of (convert_item tr env target_format n status i item ls)))
   = filter is_progress (ls_events ls) @
     (let ls' = state_of (convert_item tr env target_format n status i item ls) in
      if successfully_converted_count ls' = successfully_converted_count ls + 1 \<and>
         (successfully_converted_count ls' mod 5 = 0 \<or>
          successfully_converted_count ls' = int n)
      then [EditText status
              (Progress (successfully_converted_count ls') n
                 (total_original_size ls') (total_converted_size ls'))]
      else [])"
    unfolding Let_def by (rule convert_item_progress [OF refl])
  from run run_batch_count_results [of tr env target_format status pending st] item
  show ?thesis by blast
qed

lemma six_images_run:
  "ls_events (state_of (run_batch ok_transport all_convert_env ''WEBP'' 1 six_images
     initial_stats)) =
   [ReplyText (Preparing 6 ''WEBP''), EditText 1 (Progress 5 6 5000 2000),
    EditText 1 (Progress 6 6 6000 2400),
    CreateZip
      [(''/tmp/out_'', ''1.webp''), (''/tmp/out_x'', ''2.webp''), (''/tmp/out_xx'', ''3.webp''),
       (''/tmp/out_xxx'', ''4.webp''), (''/tmp/out_xxxx'', ''5.webp''),
       (''/tmp/out_xxxxx'', ''6.webp'')],
    SendDocument
      [(''/tmp/out_'', ''1.webp''), (''/tmp/out_x'', ''2.webp''), (''/tmp/out_xx'', ''3.webp''),
       (''/tmp/out_xxx'', ''4.webp''), (''/tmp/out_xxxx'', ''5.webp''),
       (''/tmp/out_xxxxx'', ''6.webp'')] 6 ''WEBP'',
    EditText 1 (FinalStatus 6 6 6000 2400 60)]"
  by code_simp

lemma six_images_count:
  "successfully_converted_count (state_of (run_batch ok_transport all_convert_env ''WEBP'' 1
     six_images initial_stats)) = 6"
  by code_simp

theorem progress_after_counted_success_witness:
  "progress_counts (ls_events (state_of
     (run_batch ok_transport all_convert_env ''WEBP'' 1 six_images initial_stats))) =
   [(5, 6), (6, 6)] \<and>
   filter is_progress (ls_events (state_of
     (run_batch ok_transport all_convert_env ''WEBP'' 1 six_images initial_stats))) =
   [EditText 1 (Progress 5 6 5000 2000), EditText 1 (Progress 6 6 6000 2400)] \<and>
   length (converted_files_paths (state_of
     (run_batch ok_transport all_convert_env ''WEBP'' 1 six_images initial_stats))) = 6"
proof -
  note run = progress_after_counted_success [of ok_transport all_convert_env "''WEBP''" 1
      six_images initial_stats 6 0 "(''/tmp/in_1'', ''1.png'')"
      "initial_loop_state 6 ''WEBP'' initial_stats"]
  have len: "length six_images = 6" by (simp add: six_images_def)
  have due: "filter (\<lambda>k. k mod 5 = 0 \<or> k = 6) [1..6] = [5, 6 :: int]"
    by (simp add: upto_rec1)
  have counts: "progress_counts (ls_events (state_of
     (run_batch ok_transport all_convert_env ''WEBP'' 1 six_images initial_stats))) =
     [(5, 6), (6, 6)]"
    using run unfolding six_images_count len by (simp add: due)
  have results: "length (converted_files_paths (state_of
     (run_batch ok_transport all_convert_env ''WEBP'' 1 six_images initial_stats))) = 6"
    using run unfolding six_images_count by simp
  have reports: "filter is_progress (ls_events (state_of
     (run_batch ok_transport all_convert_env ''WEBP'' 1 six_images initial_stats))) =
   [EditText 1 (Progress 5 6 5000 2000), EditText 1 (Progress 6 6 6000 2400)]"
    unfolding six_images_run by (simp add: is_progress_def)
  from counts reports results show ?thesis by blast
qed

end
